theory Spec2Isabelle
  imports Main "HOL-Library.Sublist"
begin

section \<open>The menu object\<close>

text \<open>
  \<^verbatim>\<open>multipysimplemenu.py\<close>, lines 10 to 37: the dataclass \<^verbatim>\<open>MultiPySimpleMenu\<close>.
  The six documented arguments come first, the four underscore fields hold the state of a
  running menu. Python's \<^verbatim>\<open>int\<close> is unbounded, so the indices and sizes are \<open>int\<close>.
  The colour and the style are enumeration members of \<^verbatim>\<open>multipycolors\<close>, a module that is
  not among the sources; the code only ever reads their \<^verbatim>\<open>.value\<close>, a string that is
  concatenated in front of the selected option, so each field holds that string.
\<close>

record MultiPySimpleMenu =
  options :: "string list"
  default_option :: int
  prechar :: string
  clear_on_exit :: bool
  selected_color :: string
  selected_style :: string
  selected_option :: int
  searching_buffer :: string
  terminal_last_line_size :: int
  terminal_last_column_size :: int

text \<open>
  The class body is executed once, top to bottom. Line 24 binds the name
  \<^verbatim>\<open>default_option\<close> to 0 in the class namespace; line 30,
  \<^verbatim>\<open>_selected_option:int = default_option\<close>, reads that name at that moment, so the
  default value of the field \<^verbatim>\<open>_selected_option\<close> is the number 0 and not the argument
  that a caller passes later.
\<close>

definition class_default_option :: int where
  "class_default_option = 0"

definition class_selected_option :: int where
  "class_selected_option = class_default_option"

text \<open>
  The constructor that \<^verbatim>\<open>@dataclass\<close> generates, called with the documented arguments:
  every field that is not passed takes its class-level default. Lines 34 and 37 take the
  defaults of the two size fields from \<^verbatim>\<open>os.get_terminal_size()\<close> when the module is
  imported; that size is the first parameter here.
\<close>

definition MultiPySimpleMenu_init ::
  "int \<times> int \<Rightarrow> string list \<Rightarrow> int \<Rightarrow> string \<Rightarrow> bool \<Rightarrow> string \<Rightarrow> string \<Rightarrow> MultiPySimpleMenu" where
  "MultiPySimpleMenu_init import_size opts dflt pre coe col sty =
     \<lparr> options = opts,
       default_option = dflt,
       prechar = pre,
       clear_on_exit = coe,
       selected_color = col,
       selected_style = sty,
       selected_option = class_selected_option,
       searching_buffer = [],
       terminal_last_line_size = fst import_size,
       terminal_last_column_size = snd import_size \<rparr>"

section \<open>Helpers of other modules\<close>

text \<open>
  Modelled from the spec: \<^verbatim>\<open>multipymath.clamp\<close> is imported on line 7 and its module is
  not among the sources. The spec calls it a generic numeric clamp helper and says of its
  one use, \<^verbatim>\<open>clamp(self._selected_option, 0, len(self._printable_options)-1)\<close>, that it
  puts the index into \<open>[0, max(0, len - 1)]\<close>: the lower bound wins when the upper
  bound is below it.
\<close>

definition clamp :: "int \<Rightarrow> int \<Rightarrow> int \<Rightarrow> int" where
  "clamp v lo hi = max lo (min v hi)"

text \<open>
  Modelled from the spec: \<^verbatim>\<open>multipycolors.ENDC\<close> is imported on line 6 and its module is
  not among the sources. The spec calls it the style-reset marker appended to every entry;
  the ANSI reset sequence is taken for it. No theorem depends on its value.
\<close>

definition ENDC :: string where
  "ENDC = CHR 0x1B # ''[0m''"

section \<open>Escaped patterns and matching at the start\<close>

text \<open>
  \<^verbatim>\<open>re.escape\<close> and \<^verbatim>\<open>re.match\<close> belong to Python's standard library. \<^verbatim>\<open>re.escape\<close>
  puts a backslash in front of each of the characters below and leaves every other
  character alone.
\<close>

definition backslash :: char where
  "backslash = CHR 0x5C"

definition special_chars :: "char list" where
  "special_chars = ''()[]{}?*+-|^$'' @ [backslash] @ ''.&~# '' @
     [CHR 0x09, CHR 0x0A, CHR 0x0D, CHR 0x0B, CHR 0x0C]"

fun re_escape :: "string \<Rightarrow> string" where
  "re_escape [] = []"
| "re_escape (c # cs) =
     (if c \<in> set special_chars then backslash # c # re_escape cs else c # re_escape cs)"

text \<open>
  Of the pattern language, the part modelled is the concatenation of one-character items:
  a character that is not special stands for itself, a backslash followed by a special
  character stands for that character, and an unescaped dot stands for any character but
  the newline. \<open>re_items\<close> reads a pattern of that shape; it gives \<open>None\<close> on every other
  pattern (a quantifier, a group, a class, an anchor, an alternative, a backslash before
  anything else), whose meaning is not modelled.
\<close>

datatype item = Literal char | Dot

fun re_items :: "string \<Rightarrow> item list option" where
  "re_items [] = Some []"
| "re_items (c # cs) =
     (if c = backslash then
        (case cs of
           [] \<Rightarrow> None
         | d # ds \<Rightarrow>
             if d \<in> set special_chars then map_option ((#) (Literal d)) (re_items ds)
             else None)
      else if c = CHR ''.'' then map_option ((#) Dot) (re_items cs)
      else if c \<in> set special_chars then None
      else map_option ((#) (Literal c)) (re_items cs))"

text \<open>
  \<^verbatim>\<open>re.match\<close> tries the pattern at the start of the string only, and the string may go on
  after the match.
\<close>

fun items_match :: "item list \<Rightarrow> string \<Rightarrow> bool" where
  "items_match [] s = True"
| "items_match (i # is) [] = False"
| "items_match (Literal c # is) (x # s) = (x = c \<and> items_match is s)"
| "items_match (Dot # is) (x # s) = (x \<noteq> CHR 0x0A \<and> items_match is s)"

definition re_match :: "string \<Rightarrow> string \<Rightarrow> bool option" where
  "re_match pattern s = map_option (\<lambda>is. items_match is s) (re_items pattern)"

section \<open>The computed properties\<close>

text \<open>Lines 71 to 74: searching is active when the buffer is not empty.\<close>

definition searching :: "MultiPySimpleMenu \<Rightarrow> bool" where
  "searching m = (length (searching_buffer m) > 0)"

text \<open>
  Lines 46 to 55, the first half of \<^verbatim>\<open>_printable_options\<close>: the options that are
  available. \<^verbatim>\<open>self._searching_buffer[1:]\<close> is the buffer without its first character.
  A match object is always true and no match is \<^verbatim>\<open>None\<close>, so the test of line 52 holds
  exactly when there is a match.
\<close>

definition available_options :: "MultiPySimpleMenu \<Rightarrow> string list" where
  "available_options m =
     (if searching m
      then filter (\<lambda>opt. re_match (re_escape (drop 1 (searching_buffer m))) opt = Some True)
             (options m)
      else options m)"

text \<open>
  Lines 57 to 63, the second half: the loop over \<^verbatim>\<open>enumerate(available_options)\<close>, with
  the running index as second argument.
\<close>

fun add_styles :: "MultiPySimpleMenu \<Rightarrow> int \<Rightarrow> string list \<Rightarrow> string list" where
  "add_styles m index [] = []"
| "add_styles m index (opt # rest) =
     (prechar m @
       (if index = selected_option m then selected_color m @ selected_style m @ opt else opt) @
       ENDC) # add_styles m (index + 1) rest"

definition printable_options :: "MultiPySimpleMenu \<Rightarrow> string list" where
  "printable_options m = add_styles m 0 (available_options m)"

section \<open>Keys, calls to other modules, and the world they reach\<close>

text \<open>
  Modelled from the spec: \<^verbatim>\<open>special_keys.SpecialKeys\<close> and the key reader
  \<^verbatim>\<open>multipyterminal.MultiPyKeyStrokes\<close> are imported on lines 5 and 8 and their modules
  are not among the sources. The spec gives an event as one of the named keys or a
  decodable character. The five named keys that \<^verbatim>\<open>show\<close> compares with are constructors
  of their own, every other named key is \<open>OTHER\<close>, and a character arrives as a Python
  string, the only kind of event for which \<^verbatim>\<open>isinstance(key, str)\<close> holds.
\<close>

datatype key = INTRO | ARROW_UP | ARROW_DOWN | SLASH | BACKSPACE | OTHER | Str string

text \<open>
  Everything \<^verbatim>\<open>show\<close> does outside the menu object is a call to a function of another
  module. A call is recorded with the arguments the code passes:
  \<^verbatim>\<open>MultiPyKeyStrokes()\<close>, \<^verbatim>\<open>kshandler.init()\<close>, \<^verbatim>\<open>kshandler.deinit()\<close>,
  \<^verbatim>\<open>kshandler.readch()\<close>, \<^verbatim>\<open>os.get_terminal_size()\<close>, \<^verbatim>\<open>print_lines\<close>,
  \<^verbatim>\<open>delete_lines\<close>, \<^verbatim>\<open>delete_all_lines\<close>, \<^verbatim>\<open>clear_terminal\<close> and
  \<^verbatim>\<open>cursor_backwards\<close>, whose argument \<^verbatim>\<open>times\<close> is \<open>None\<close> when the code leaves
  it to the default.
\<close>

datatype call =
    New_MultiPyKeyStrokes
  | Init
  | Deinit
  | Readch
  | Get_terminal_size
  | Print_lines "string list" string
  | Delete_lines int
  | Delete_all_lines string int
  | Clear_terminal
  | Cursor_backwards "int option"

text \<open>
  The world outside decides two things about the call number \<open>n\<close> of a run of
  \<^verbatim>\<open>show\<close> (counted from 0): whether it raises an exception, and which size
  (lines, columns) the terminal has at that moment. A call that raises is
  recorded like one that returns: it has been made.
\<close>

record environment =
  raises :: "nat \<Rightarrow> bool"
  terminal_size :: "nat \<Rightarrow> int \<times> int"

text \<open>
  A statement ends in a value, in an exception, or never: \<^verbatim>\<open>readch\<close> blocks without
  a timeout, so a run whose keys are used up waits for ever. The state of a run is the menu
  object together with the calls made so far.
\<close>

datatype 'a result = Value 'a | Raised | Blocked

type_synonym state = "MultiPySimpleMenu \<times> call list"

type_synonym 'a statement = "state \<Rightarrow> 'a result \<times> state"

definition ret :: "'a \<Rightarrow> 'a statement" where
  "ret a s = (Value a, s)"

definition seq :: "'a statement \<Rightarrow> ('a \<Rightarrow> 'b statement) \<Rightarrow> 'b statement" where
  "seq f g s =
     (case f s of
        (Value a, s') \<Rightarrow> g a s'
      | (Raised, s') \<Rightarrow> (Raised, s')
      | (Blocked, s') \<Rightarrow> (Blocked, s'))"

definition update :: "(MultiPySimpleMenu \<Rightarrow> MultiPySimpleMenu) \<Rightarrow> unit statement" where
  "update f s = (Value (), (f (fst s), snd s))"

definition external :: "environment \<Rightarrow> call \<Rightarrow> unit statement" where
  "external e c s =
     (if raises e (length (snd s)) then Raised else Value (), (fst s, snd s @ [c]))"

definition get_terminal_size :: "environment \<Rightarrow> (int \<times> int) statement" where
  "get_terminal_size e s =
     (if raises e (length (snd s)) then Raised else Value (terminal_size e (length (snd s))),
      (fst s, snd s @ [Get_terminal_size]))"

text \<open>\<^verbatim>\<open>readch\<close> when the user presses \<open>k\<close>, and when the user presses nothing any more.\<close>

definition readch :: "environment \<Rightarrow> key \<Rightarrow> key statement" where
  "readch e k s =
     (if raises e (length (snd s)) then Raised else Value k, (fst s, snd s @ [Readch]))"

definition readch_blocks :: "environment \<Rightarrow> 'a statement" where
  "readch_blocks e s =
     (if raises e (length (snd s)) then Raised else Blocked, (fst s, snd s @ [Readch]))"

text \<open>
  \<^verbatim>\<open>try: body finally: handler\<close>: the handler runs when the body returns and when it
  raises; an exception of the handler replaces the outcome of the body.
\<close>

definition try_finally :: "'a statement \<Rightarrow> unit statement \<Rightarrow> 'a statement" where
  "try_finally body handler s =
     (case body s of
        (Blocked, s') \<Rightarrow> (Blocked, s')
      | (r, s') \<Rightarrow>
          (case handler s' of
             (Value u, s'') \<Rightarrow> (r, s'')
           | (Raised, s'') \<Rightarrow> (Raised, s'')
           | (Blocked, s'') \<Rightarrow> (Blocked, s'')))"

section \<open>The method show\<close>

text \<open>
  Lines 66 to 69, \<^verbatim>\<open>_terminal_resized\<close>: \<^verbatim>\<open>or\<close> asks for the size a second time only
  when the lines have not changed.
\<close>

definition terminal_resized :: "environment \<Rightarrow> bool statement" where
  "terminal_resized e =
     seq (get_terminal_size e) (\<lambda>size1 s.
       if fst size1 \<noteq> terminal_last_line_size (fst s) then ret True s
       else seq (get_terminal_size e) (\<lambda>size2 s'.
              ret (snd size2 \<noteq> terminal_last_column_size (fst s')) s') s)"

text \<open>\<^verbatim>\<open>print_lines(self._printable_options, self._searching_buffer)\<close>, lines 91, 100, 135.\<close>

definition print_menu :: "environment \<Rightarrow> unit statement" where
  "print_menu e s =
     external e (Print_lines (printable_options (fst s)) (searching_buffer (fst s))) s"

text \<open>
  \<^verbatim>\<open>delete_all_lines(self._searching_buffer, self._terminal_last_line_size)\<close>,
  lines 108 and 134.
\<close>

definition delete_menu :: "environment \<Rightarrow> unit statement" where
  "delete_menu e s =
     external e (Delete_all_lines (searching_buffer (fst s)) (terminal_last_line_size (fst s))) s"

text \<open>Lines 95 to 100: the check for a resized terminal at the top of the loop body.\<close>

definition check_resized :: "environment \<Rightarrow> unit statement" where
  "check_resized e =
     seq (terminal_resized e) (\<lambda>resized.
       if resized then
         seq (get_terminal_size e) (\<lambda>size1.
         seq (update (\<lambda>m. m\<lparr>terminal_last_line_size := fst size1\<rparr>)) (\<lambda>_.
         seq (get_terminal_size e) (\<lambda>size2.
         seq (update (\<lambda>m. m\<lparr>terminal_last_column_size := snd size2\<rparr>)) (\<lambda>_.
         seq (external e Clear_terminal) (\<lambda>_.
         print_menu e)))))
       else ret ())"

text \<open>Lines 105 to 115: the confirm key. The value is what \<^verbatim>\<open>show\<close> returns.\<close>

definition on_intro :: "environment \<Rightarrow> int option statement" where
  "on_intro e =
     seq (\<lambda>s. if clear_on_exit (fst s) then delete_menu e s
              else seq (get_terminal_size e) (\<lambda>size1 s'.
                     external e
                       (Delete_lines (fst size1 - int (length (options (fst s'))) - 1)) s') s)
       (\<lambda>_.
     seq (external e Deinit) (\<lambda>_ s.
       if length (printable_options (fst s)) \<noteq> 0 then ret (Some (selected_option (fst s))) s
       else ret None s))"

text \<open>
  Lines 117 to 130: every other key. \<^verbatim>\<open>self._searching_buffer[-1]\<close> is read only when
  the buffer is not empty; \<^verbatim>\<open>char_to_remove.encode() == b'\\t'\<close> holds for the tab
  character alone.
\<close>

definition on_key :: "environment \<Rightarrow> key \<Rightarrow> unit statement" where
  "on_key e k s =
     (if k = ARROW_UP then update (\<lambda>m. m\<lparr>selected_option := selected_option m - 1\<rparr>) s
      else if k = ARROW_DOWN then update (\<lambda>m. m\<lparr>selected_option := selected_option m + 1\<rparr>) s
      else if k = SLASH \<and> \<not> searching (fst s) then update (\<lambda>m. m\<lparr>searching_buffer := ''/''\<rparr>) s
      else if searching (fst s) then
        (if k = BACKSPACE then
           (let char_to_remove = last (searching_buffer (fst s)) in
            seq (update (\<lambda>m. m\<lparr>searching_buffer := butlast (searching_buffer m)\<rparr>)) (\<lambda>_.
              if char_to_remove = CHR 0x09 then external e (Cursor_backwards (Some 7))
              else external e (Cursor_backwards None)) s)
         else (case k of
                 Str text \<Rightarrow> update (\<lambda>m. m\<lparr>searching_buffer := searching_buffer m @ text\<rparr>) s
               | _ \<Rightarrow> ret () s))
      else ret () s)"

text \<open>Lines 132 to 135: clamp the index, delete the old frame, print the new one.\<close>

definition redraw :: "environment \<Rightarrow> unit statement" where
  "redraw e =
     seq (update (\<lambda>m. m\<lparr>selected_option :=
            clamp (selected_option m) 0 (int (length (printable_options m)) - 1)\<rparr>)) (\<lambda>_.
     seq (delete_menu e) (\<lambda>_.
     print_menu e))"

text \<open>
  One pass through the body of \<^verbatim>\<open>while True\<close> when the user presses \<open>k\<close>. The value
  \<open>Some v\<close> stands for \<^verbatim>\<open>return v\<close>, the value \<open>None\<close> for reaching the end of the
  body.
\<close>

definition iteration :: "environment \<Rightarrow> key \<Rightarrow> int option option statement" where
  "iteration e k =
     seq (check_resized e) (\<lambda>_.
     seq (readch e k) (\<lambda>key.
       if key = INTRO then seq (on_intro e) (\<lambda>v. ret (Some v))
       else seq (on_key e key) (\<lambda>_.
            seq (redraw e) (\<lambda>_.
            ret None))))"

text \<open>
  Lines 94 to 135: the loop, given the keys that the user is going to press. When they are
  used up the loop checks the size once more and then waits in \<^verbatim>\<open>readch\<close>.
\<close>

fun show_loop :: "environment \<Rightarrow> key list \<Rightarrow> int option statement" where
  "show_loop e [] s = seq (check_resized e) (\<lambda>_. readch_blocks e) s"
| "show_loop e (k # ks) s =
     (case iteration e k s of
        (Value (Some v), s') \<Rightarrow> (Value v, s')
      | (Value None, s') \<Rightarrow> show_loop e ks s'
      | (Raised, s') \<Rightarrow> (Raised, s')
      | (Blocked, s') \<Rightarrow> (Blocked, s'))"

text \<open>
  Lines 88 to 137, \<^verbatim>\<open>show\<close>: the result, the menu object afterwards, and the calls made.
  The first \<^verbatim>\<open>print_lines\<close> of line 91 stands before \<^verbatim>\<open>try\<close>.
\<close>

definition "show" :: "environment \<Rightarrow> key list \<Rightarrow> MultiPySimpleMenu \<Rightarrow> int option result \<times> state" where
  "show e ks m =
     seq (external e New_MultiPyKeyStrokes) (\<lambda>_.
     seq (external e Init) (\<lambda>_.
     seq (print_menu e) (\<lambda>_.
     try_finally (show_loop e ks) (external e Deinit)))) (m, [])"

section \<open>Inputs for the examples\<close>

text \<open>
  A terminal of 24 lines and 80 columns that never changes, in a world where no call
  raises; and the menu of the three options Alpha, Beta and Gamma with every other
  argument at its default (the colour and the style left empty).
\<close>

definition quiet :: environment where
  "quiet = \<lparr> raises = (\<lambda>n. False), terminal_size = (\<lambda>n. (24, 80)) \<rparr>"

definition greek :: MultiPySimpleMenu where
  "greek = MultiPySimpleMenu_init (24, 80) [''Alpha'', ''Beta'', ''Gamma''] 0 ''> '' True [] []"

text \<open>The same menu in the middle of a search: the index at Gamma, the buffer \<open>/\<close>.\<close>

definition greek_searching :: MultiPySimpleMenu where
  "greek_searching = greek\<lparr>selected_option := 2, searching_buffer := ''/''\<rparr>"

section \<open>What the visible list depends on\<close>

text \<open>
  The fields of the menu object that \<^verbatim>\<open>_printable_options\<close> reads. The two size fields
  are not among them.
\<close>

definition shown ::
  "MultiPySimpleMenu \<Rightarrow> string list \<times> string \<times> string \<times> string \<times> int \<times> string" where
  "shown m =
     (options m, prechar m, selected_color m, selected_style m, selected_option m,
      searching_buffer m)"

section \<open>Counting the releases of the key reader\<close>

text \<open>How often \<^verbatim>\<open>kshandler.deinit()\<close> occurs among the calls made.\<close>

definition deinits :: "call list \<Rightarrow> nat" where
  "deinits tr = length (filter (\<lambda>c. c = Deinit) tr)"

text \<open>
  A world in which the third call of a run raises and no other call does. In \<^verbatim>\<open>show\<close>
  the third call is the \<^verbatim>\<open>print_lines\<close> of line 91 (a closed output, say).
\<close>

definition first_print_fails :: environment where
  "first_print_fails = \<lparr> raises = (\<lambda>n. n = 2), terminal_size = (\<lambda>n. (24, 80)) \<rparr>"

section \<open>The configuration and what keeps it\<close>

text \<open>The six documented arguments of the class, as one value.\<close>

definition config ::
  "MultiPySimpleMenu \<Rightarrow> string list \<times> int \<times> string \<times> bool \<times> string \<times> string" where
  "config m =
     (options m, default_option m, prechar m, clear_on_exit m, selected_color m,
      selected_style m)"

text \<open>A statement keeps a part \<open>p\<close> of the state when \<open>p\<close> is the same afterwards,
  however the statement ends.\<close>

definition keeps :: "(state \<Rightarrow> 'b) \<Rightarrow> 'a statement \<Rightarrow> bool" where
  "keeps p f = (\<forall>s r s'. f s = (r, s') \<longrightarrow> p s' = p s)"

section \<open>The list objects of the visible options\<close>

text \<open>
  A Python list is an object, and two names may stand for the same object. To see which
  list objects \<^verbatim>\<open>_printable_options\<close> (lines 40 to 64) creates and which it changes, the
  lists live in a store here: object number \<open>r\<close> is the entry \<open>h ! r\<close>.
  \<open>new_list\<close> is the expression \<^verbatim>\<open>[]\<close>, \<open>slice_all\<close> is \<^verbatim>\<open>xs[:]\<close>, both give a new
  object; \<open>append_to\<close> is \<^verbatim>\<open>xs.append(x)\<close>, which changes the object in place.
\<close>

type_synonym heap = "string list list"

definition new_list :: "heap \<Rightarrow> nat \<times> heap" where
  "new_list h = (length h, h @ [[]])"

definition slice_all :: "nat \<Rightarrow> heap \<Rightarrow> nat \<times> heap" where
  "slice_all r h = (length h, h @ [h ! r])"

definition append_to :: "nat \<Rightarrow> string \<Rightarrow> heap \<Rightarrow> heap" where
  "append_to r x h = h[r := h ! r @ [x]]"

text \<open>Lines 51 to 53: the loop that appends the matching options to \<open>available\<close>.\<close>

fun filter_into :: "MultiPySimpleMenu \<Rightarrow> nat \<Rightarrow> string list \<Rightarrow> heap \<Rightarrow> heap" where
  "filter_into m available [] h = h"
| "filter_into m available (opt # rest) h =
     filter_into m available rest
       (if re_match (re_escape (drop 1 (searching_buffer m))) opt = Some True
        then append_to available opt h else h)"

text \<open>Lines 58 to 63: the loop that appends the styled options to \<open>temp\<close>.\<close>

fun style_into :: "MultiPySimpleMenu \<Rightarrow> nat \<Rightarrow> int \<Rightarrow> string list \<Rightarrow> heap \<Rightarrow> heap" where
  "style_into m temp index [] h = h"
| "style_into m temp index (opt # rest) h =
     style_into m temp (index + 1) rest
       (append_to temp
          (prechar m @
            (if index = selected_option m then selected_color m @ selected_style m @ opt
             else opt) @
            ENDC) h)"

text \<open>
  \<^verbatim>\<open>_printable_options\<close> on the store: \<open>self_options\<close> is the list object that
  \<^verbatim>\<open>self.options\<close> stands for, the other fields are read from \<open>m\<close>. The result is the
  object returned and the store afterwards.
\<close>

definition printable_options_objects ::
  "MultiPySimpleMenu \<Rightarrow> nat \<Rightarrow> heap \<Rightarrow> nat \<times> heap" where
  "printable_options_objects m self_options h =
     (let (temp_printable_options, h1) = new_list h;
          (available0, h2) = new_list h1;
          (available, h3) =
            (if searching m then (available0, filter_into m available0 (h2 ! self_options) h2)
             else slice_all self_options h2)
      in (temp_printable_options,
          style_into m temp_printable_options 0 (h3 ! available) h3))"

section \<open>Erasing with a given terminal size\<close>

text \<open>
  The two calls that erase lines take a count computed from the height of the terminal:
  \<^verbatim>\<open>delete_all_lines\<close> is given the height itself (lines 108 and 134), \<^verbatim>\<open>delete_lines\<close>
  the height minus the number of options minus one (line 111). A call erases with the size
  \<open>g\<close> when its count is the one computed from the lines of \<open>g\<close>; every other call
  erases nothing.
\<close>

definition erases_with :: "int \<times> int \<Rightarrow> MultiPySimpleMenu \<Rightarrow> call \<Rightarrow> bool" where
  "erases_with g m c =
     (case c of
        Delete_all_lines buffer n \<Rightarrow> n = fst g
      | Delete_lines n \<Rightarrow> n = fst g - int (length (options m)) - 1
      | _ \<Rightarrow> True)"

text \<open>A world like \<open>quiet\<close> whose terminal has 30 lines and 100 columns.\<close>

definition resized :: environment where
  "resized = \<lparr> raises = (\<lambda>n. False), terminal_size = (\<lambda>n. (30, 100)) \<rparr>"

section \<open>Facts about the pattern functions\<close>

lemma re_items_escape: "re_items (re_escape p) = Some (map Literal p)"
  by (induction p rule: re_escape.induct) (auto simp: special_chars_def backslash_def)

lemma items_match_literals: "items_match (map Literal p) s = prefix p s"
  by (induction p arbitrary: s) (auto simp: prefix_def elim: items_match.elims)

lemma re_match_escape: "re_match (re_escape p) s = Some (prefix p s)"
  by (simp add: re_match_def re_items_escape items_match_literals)

lemma length_add_styles: "length (add_styles m i xs) = length xs"
  by (induction xs arbitrary: i) auto

lemma length_printable_options:
  "length (printable_options m) = length (available_options m)"
  by (simp add: printable_options_def length_add_styles)

section \<open>Facts about statements\<close>

lemmas statement_defs =
  seq_def ret_def update_def external_def get_terminal_size_def readch_def readch_blocks_def
  try_finally_def print_menu_def delete_menu_def

lemmas menu_defs =
  MultiPySimpleMenu_init_def class_selected_option_def class_default_option_def
  printable_options_def available_options_def searching_def clamp_def

lemma seq_Value_iff:
  "seq f g s = (Value b, s') \<longleftrightarrow> (\<exists>a s1. f s = (Value a, s1) \<and> g a s1 = (Value b, s'))"
  by (auto simp: seq_def split: prod.splits result.splits)

lemma ret_iff: "ret a s = (r, s') \<longleftrightarrow> r = Value a \<and> s' = s"
  by (auto simp: ret_def)

lemma update_iff: "update f s = (r, s') \<longleftrightarrow> r = Value () \<and> s' = (f (fst s), snd s)"
  by (auto simp: update_def)

lemma external_Value_iff:
  "external e c s = (Value u, s') \<longleftrightarrow> \<not> raises e (length (snd s)) \<and> s' = (fst s, snd s @ [c])"
  by (auto simp: external_def)

lemma get_terminal_size_Value_iff:
  "get_terminal_size e s = (Value g, s') \<longleftrightarrow>
     \<not> raises e (length (snd s)) \<and> g = terminal_size e (length (snd s)) \<and>
     s' = (fst s, snd s @ [Get_terminal_size])"
  by (auto simp: get_terminal_size_def)

lemma readch_Value_iff:
  "readch e k s = (Value k', s') \<longleftrightarrow>
     \<not> raises e (length (snd s)) \<and> k' = k \<and> s' = (fst s, snd s @ [Readch])"
  by (auto simp: readch_def)

lemma length_printable_options_selected [simp]:
  "length (printable_options (m\<lparr>selected_option := i\<rparr>)) = length (printable_options m)"
  by (simp add: length_printable_options available_options_def searching_def)

section \<open>The selection after construction\<close>

text \<open>
  C1. The claim: right after construction the selection index is the configured
  \<^verbatim>\<open>default_option\<close>, clamped to the range of the options. The code does not do that:
  for the three options Alpha, Beta, Gamma and \<^verbatim>\<open>default_option=2\<close> the index after
  construction is 0, while 2 clamped to \<open>[0, 2]\<close> is 2. The docstring of the class says of
  \<^verbatim>\<open>default_option\<close> that it is the option that will be highlighted.
\<close>

theorem selected_option_ignores_default_option:
  "selected_option
     (MultiPySimpleMenu_init (24, 80) [''Alpha'', ''Beta'', ''Gamma''] 2 ''> '' True [] []) = 0
   \<and> clamp 2 0 (int (length [''Alpha'', ''Beta'', ''Gamma'']) - 1) = 2"
  by (simp add: menu_defs)

section \<open>The filter\<close>

text \<open>
  C3. For every option list and every search buffer, the available options are exactly the
  options that start with the buffer minus its first character, in their original order,
  and the visible list is that list with the styles added. The pattern is taken literally:
  matching the escaped pattern at the start of a string is the same as the string starting
  with the pattern, whatever characters the pattern has.
\<close>

theorem filter_keeps_literal_prefix_matches:
  "available_options m = filter (prefix (drop 1 (searching_buffer m))) (options m)
   \<and> printable_options m =
       add_styles m 0 (filter (prefix (drop 1 (searching_buffer m))) (options m))
   \<and> re_match (re_escape p) s = Some (prefix p s)"
  by (simp add: printable_options_def available_options_def searching_def re_match_escape)

section \<open>The selection index stays in range\<close>

lemma redraw_in_range:
  assumes "redraw e s = (Value u, s')"
  shows "0 \<le> selected_option (fst s') \<and>
         selected_option (fst s') < max 1 (int (length (printable_options (fst s'))))"
  using assms
  by (auto simp: redraw_def seq_Value_iff update_iff external_Value_iff print_menu_def
      delete_menu_def clamp_def)

lemma iteration_ends_in_redraw:
  assumes "iteration e k s = (Value None, s')"
  shows "\<exists>s1. redraw e s1 = (Value (), s')"
  using assms
  by (auto simp: iteration_def seq_Value_iff ret_iff split: if_splits)

text \<open>
  C4. Whenever a pass through the loop body reaches its end, whatever the key was (an arrow,
  a change of the search buffer and with it of the filter, or a key that is ignored), the
  selection index \<open>i\<close> satisfies \<open>0 \<le> i < max 1 n\<close> for the number \<open>n\<close> of visible
  options, also when no option is visible.
\<close>

theorem selection_in_range_after_iteration:
  assumes "iteration e k s = (Value None, s')"
  shows "0 \<le> selected_option (fst s') \<and>
         selected_option (fst s') < max 1 (int (length (printable_options (fst s'))))"
  using iteration_ends_in_redraw [OF assms] redraw_in_range by blast

text \<open>
  The menu Alpha, Beta, Gamma with the index at 2 and the buffer \<open>/\<close>; the user types
  \<open>Z\<close>. No option is visible afterwards and the index is 0.
\<close>

theorem selection_in_range_after_iteration_witness:
  "fst (iteration quiet (Str ''Z'') (greek_searching, [])) = Value None
   \<and> printable_options (fst (snd (iteration quiet (Str ''Z'') (greek_searching, [])))) = []
   \<and> 0 \<le> selected_option (fst (snd (iteration quiet (Str ''Z'') (greek_searching, []))))
   \<and> selected_option (fst (snd (iteration quiet (Str ''Z'') (greek_searching, []))))
       < max 1 (int (length (printable_options
           (fst (snd (iteration quiet (Str ''Z'') (greek_searching, [])))))))"
proof -
  have run: "fst (iteration quiet (Str ''Z'') (greek_searching, [])) = Value None"
    by code_simp
  have none: "printable_options (fst (snd (iteration quiet (Str ''Z'') (greek_searching, [])))) = []"
    by code_simp
  from run have "iteration quiet (Str ''Z'') (greek_searching, []) =
      (Value None, snd (iteration quiet (Str ''Z'') (greek_searching, [])))"
    by (simp add: prod_eq_iff)
  from selection_in_range_after_iteration [OF this] run none show ?thesis
    by blast
qed

section \<open>The arrow keys\<close>

lemma check_resized_shown:
  assumes "check_resized e s = (r, s')"
  shows "shown (fst s') = shown (fst s)"
  using assms
  by (auto simp: shown_def check_resized_def terminal_resized_def statement_defs
      split: if_splits prod.splits result.splits)

lemma add_styles_shown:
  "prechar m' = prechar m \<Longrightarrow> selected_color m' = selected_color m \<Longrightarrow>
   selected_style m' = selected_style m \<Longrightarrow> selected_option m' = selected_option m \<Longrightarrow>
   add_styles m' i xs = add_styles m i xs"
  by (induction xs arbitrary: i) auto

lemma printable_options_shown:
  "shown m' = shown m \<Longrightarrow> printable_options m' = printable_options m"
  using add_styles_shown [of m' m 0]
  by (simp add: shown_def printable_options_def available_options_def searching_def)

lemma iteration_other_key:
  assumes "iteration e k s = (Value None, s')"
  shows "\<exists>u s1 s2 s3. check_resized e s = (Value u, s1) \<and> readch e k s1 = (Value k, s2)
     \<and> k \<noteq> INTRO \<and> on_key e k s2 = (Value (), s3) \<and> redraw e s3 = (Value (), s')"
  using assms
  by (auto simp: iteration_def seq_Value_iff ret_iff readch_Value_iff split: if_splits)

lemma redraw_shown:
  assumes "redraw e s = (Value u, s')"
  shows "shown (fst s') = shown ((fst s)\<lparr>selected_option :=
            clamp (selected_option (fst s)) 0 (int (length (printable_options (fst s))) - 1)\<rparr>)"
  using assms
  by (auto simp: redraw_def seq_Value_iff update_iff external_Value_iff print_menu_def
      delete_menu_def shown_def)

lemma readch_menu: "readch e k s = (r, s') \<Longrightarrow> fst s' = fst s"
  by (auto simp: readch_def)

lemma iteration_arrow:
  assumes "iteration e k s = (Value None, s')" "k = ARROW_UP \<or> k = ARROW_DOWN"
  shows "shown (fst s') = shown ((fst s)\<lparr>selected_option :=
      clamp (selected_option (fst s) + (if k = ARROW_UP then -1 else 1)) 0
        (int (length (printable_options (fst s))) - 1)\<rparr>)"
proof -
  from iteration_other_key [OF assms(1)] obtain u s1 s2 s3 where
    c: "check_resized e s = (Value u, s1)" and rd: "readch e k s1 = (Value k, s2)"
    and ok: "on_key e k s2 = (Value (), s3)" and re: "redraw e s3 = (Value (), s')"
    by blast
  from check_resized_shown [OF c] readch_menu [OF rd]
  have sh: "shown (fst s2) = shown (fst s)" by simp
  from ok assms(2) have s3: "fst s3 = (fst s2)\<lparr>selected_option :=
      selected_option (fst s2) + (if k = ARROW_UP then -1 else 1)\<rparr>"
    by (auto simp: on_key_def update_iff)
  have "shown (fst s3) = shown ((fst s)\<lparr>selected_option :=
      selected_option (fst s) + (if k = ARROW_UP then -1 else 1)\<rparr>)"
    using sh s3 by (simp add: shown_def)
  from printable_options_shown [OF this] this redraw_shown [OF re]
  show ?thesis by (simp add: shown_def)
qed

lemma clamp_down:
  "0 \<le> i \<Longrightarrow> i < n \<Longrightarrow> clamp (i + 1) 0 (n - 1) = (if i < n - 1 then i + 1 else n - 1)"
  by (auto simp: clamp_def)

lemma clamp_up:
  "0 \<le> i \<Longrightarrow> i < n \<Longrightarrow> clamp (i - 1) 0 (n - 1) = (if 0 < i then i - 1 else 0)"
  by (auto simp: clamp_def)

lemma clamp_down_up:
  "0 \<le> i \<Longrightarrow> i < n \<Longrightarrow>
   clamp (clamp (i + 1) 0 (n - 1) - 1) 0 (n - 1) = (if i < n - 1 then i else max 0 (n - 2))"
  by (auto simp: clamp_def)

text \<open>
  C6. Let the selection index \<open>i\<close> be valid for the \<open>n\<close> visible options, and let the
  passes through the loop body for the keys reach their end. Arrow-down followed by arrow-up
  gives \<open>i\<close> again when \<open>i\<close> is not the last index. The index does not wrap around:
  arrow-down at the last index leaves it there (and the arrow-up that follows moves it to
  \<open>n - 2\<close>, or leaves it at 0 when there is one option), and arrow-up at 0 leaves it at 0.
\<close>

theorem arrow_down_then_up:
  assumes valid: "0 \<le> selected_option (fst s)"
                 "selected_option (fst s) < int (length (printable_options (fst s)))"
    and down: "iteration e ARROW_DOWN s = (Value None, sd)"
    and down_up: "iteration e ARROW_UP sd = (Value None, sdu)"
    and up: "iteration e ARROW_UP s = (Value None, su)"
  shows "selected_option (fst sdu) =
           (if selected_option (fst s) < int (length (printable_options (fst s))) - 1
            then selected_option (fst s)
            else max 0 (int (length (printable_options (fst s))) - 2))
       \<and> selected_option (fst sd) =
           (if selected_option (fst s) < int (length (printable_options (fst s))) - 1
            then selected_option (fst s) + 1
            else int (length (printable_options (fst s))) - 1)
       \<and> selected_option (fst su) =
           (if 0 < selected_option (fst s) then selected_option (fst s) - 1 else 0)"
proof -
  let ?n = "int (length (printable_options (fst s)))"
  from iteration_arrow [OF down]
  have d: "shown (fst sd) = shown ((fst s)\<lparr>selected_option :=
      clamp (selected_option (fst s) + 1) 0 (?n - 1)\<rparr>)" by simp
  from printable_options_shown [OF d]
  have ld: "int (length (printable_options (fst sd))) = ?n" by simp
  from iteration_arrow [OF down_up]
  have du: "shown (fst sdu) = shown ((fst sd)\<lparr>selected_option :=
      clamp (selected_option (fst sd) - 1) 0 (?n - 1)\<rparr>)" by (simp add: ld)
  from iteration_arrow [OF up]
  have u: "shown (fst su) = shown ((fst s)\<lparr>selected_option :=
      clamp (selected_option (fst s) - 1) 0 (?n - 1)\<rparr>)" by simp
  from d have 1: "selected_option (fst sd) = clamp (selected_option (fst s) + 1) 0 (?n - 1)"
    by (simp add: shown_def)
  from du have 2: "selected_option (fst sdu) = clamp (selected_option (fst sd) - 1) 0 (?n - 1)"
    by (simp add: shown_def)
  from u have 3: "selected_option (fst su) = clamp (selected_option (fst s) - 1) 0 (?n - 1)"
    by (simp add: shown_def)
  from 1 2 3 clamp_down [OF valid] clamp_up [OF valid] clamp_down_up [OF valid]
  show ?thesis by simp
qed

text \<open>
  The menu Alpha, Beta, Gamma with the index at 0: down and up again ends at 0, down alone
  at 1, and up alone stays at 0.
\<close>

theorem arrow_down_then_up_witness:
  "0 \<le> selected_option greek
   \<and> selected_option greek < int (length (printable_options greek))
   \<and> fst (iteration quiet ARROW_DOWN (greek, [])) = Value None
   \<and> fst (iteration quiet ARROW_UP (snd (iteration quiet ARROW_DOWN (greek, [])))) = Value None
   \<and> fst (iteration quiet ARROW_UP (greek, [])) = Value None
   \<and> selected_option (fst (snd (iteration quiet ARROW_UP
         (snd (iteration quiet ARROW_DOWN (greek, [])))))) = 0
   \<and> selected_option (fst (snd (iteration quiet ARROW_DOWN (greek, [])))) = 1
   \<and> selected_option (fst (snd (iteration quiet ARROW_UP (greek, [])))) = 0"
proof -
  have v1: "0 \<le> selected_option (fst (greek, []::call list))"
    by code_simp
  have v2: "selected_option (fst (greek, []::call list))
      < int (length (printable_options (fst (greek, []::call list))))"
    by code_simp
  have n: "int (length (printable_options greek)) = 3"
    by code_simp
  have i: "selected_option greek = 0"
    by code_simp
  have r1: "fst (iteration quiet ARROW_DOWN (greek, [])) = Value None"
    by code_simp
  have r2: "fst (iteration quiet ARROW_UP (snd (iteration quiet ARROW_DOWN (greek, [])))) =
      Value None"
    by code_simp
  have r3: "fst (iteration quiet ARROW_UP (greek, [])) = Value None"
    by code_simp
  from r1 have down: "iteration quiet ARROW_DOWN (greek, []) =
      (Value None, snd (iteration quiet ARROW_DOWN (greek, [])))"
    by (simp add: prod_eq_iff)
  from r2 have down_up: "iteration quiet ARROW_UP (snd (iteration quiet ARROW_DOWN (greek, []))) =
      (Value None, snd (iteration quiet ARROW_UP (snd (iteration quiet ARROW_DOWN (greek, [])))))"
    by (simp add: prod_eq_iff)
  from r3 have up: "iteration quiet ARROW_UP (greek, []) =
      (Value None, snd (iteration quiet ARROW_UP (greek, [])))"
    by (simp add: prod_eq_iff)
  from arrow_down_then_up [OF v1 v2 down down_up up] v1 v2 r1 r2 r3 n i show ?thesis
    by simp
qed

section \<open>Into the search and out again\<close>

lemma iteration_shown:
  assumes "iteration e k s = (Value None, s')"
  shows "\<exists>s2 s3. shown (fst s2) = shown (fst s) \<and> on_key e k s2 = (Value (), s3) \<and> k \<noteq> INTRO \<and>
     shown (fst s') = shown ((fst s3)\<lparr>selected_option :=
            clamp (selected_option (fst s3)) 0 (int (length (printable_options (fst s3))) - 1)\<rparr>)"
proof -
  from iteration_other_key [OF assms(1)] obtain u s1 s2 s3 where
    c: "check_resized e s = (Value u, s1)" and rd: "readch e k s1 = (Value k, s2)"
    and k: "k \<noteq> INTRO"
    and ok: "on_key e k s2 = (Value (), s3)" and re: "redraw e s3 = (Value (), s')"
    by blast
  from check_resized_shown [OF c] readch_menu [OF rd]
  have sh: "shown (fst s2) = shown (fst s)" by simp
  with ok k redraw_shown [OF re] show ?thesis by blast
qed

lemma available_options_slash:
  "searching_buffer m = ''/'' \<Longrightarrow> available_options m = options m"
  using re_match_escape [of "[]"] by (simp add: available_options_def)

lemma available_options_not_searching:
  "searching_buffer m = [] \<Longrightarrow> available_options m = options m"
  by (simp add: available_options_def searching_def)

lemma length_printable_options_slash:
  "searching_buffer m = ''/'' \<or> searching_buffer m = [] \<Longrightarrow> length (printable_options m) = length (options m)"
  by (auto simp add: length_printable_options available_options_slash available_options_not_searching)

lemma clamp_clamp: "clamp (clamp i 0 h) 0 h = clamp i 0 h"
  by (auto simp: clamp_def)

text \<open>
  C7. From a state where no search is active, let the passes through the loop body for the
  search key and then for backspace reach their end. Afterwards the search buffer is
  empty, no search is active, the available options are all the options, the visible list is
  the full option list with the styles added, and every field that the visible list depends
  on is as before the search, the selection index clamped to the option list.
\<close>

theorem slash_then_backspace:
  assumes idle: "\<not> searching (fst s)"
    and slash: "iteration e SLASH s = (Value None, s1)"
    and backspace: "iteration e BACKSPACE s1 = (Value None, s2)"
  shows "searching_buffer (fst s2) = []
       \<and> \<not> searching (fst s2)
       \<and> available_options (fst s2) = options (fst s)
       \<and> printable_options (fst s2) = add_styles (fst s2) 0 (options (fst s))
       \<and> shown (fst s2) = shown ((fst s)\<lparr>selected_option :=
            clamp (selected_option (fst s)) 0 (int (length (options (fst s))) - 1)\<rparr>)"
proof -
  from iteration_shown [OF slash] obtain a b where
    a: "shown (fst a) = shown (fst s)" and ab: "on_key e SLASH a = (Value (), b)"
    and s1: "shown (fst s1) = shown ((fst b)\<lparr>selected_option :=
            clamp (selected_option (fst b)) 0 (int (length (printable_options (fst b))) - 1)\<rparr>)"
    by blast
  from a idle have "\<not> searching (fst a)" by (simp add: shown_def searching_def)
  with ab have b: "fst b = (fst a)\<lparr>searching_buffer := ''/''\<rparr>"
    by (auto simp: on_key_def update_iff)
  with s1 a have s1': "shown (fst s1) = shown ((fst s)\<lparr>searching_buffer := ''/'', selected_option :=
            clamp (selected_option (fst s)) 0 (int (length (options (fst s))) - 1)\<rparr>)"
    by (simp add: shown_def length_printable_options_slash)
  from iteration_shown [OF backspace] obtain c d where
    c: "shown (fst c) = shown (fst s1)" and cd: "on_key e BACKSPACE c = (Value (), d)"
    and s2: "shown (fst s2) = shown ((fst d)\<lparr>selected_option :=
            clamp (selected_option (fst d)) 0 (int (length (printable_options (fst d))) - 1)\<rparr>)"
    by blast
  from c s1' have bufc: "searching_buffer (fst c) = ''/''" by (simp add: shown_def)
  with cd have d: "fst d = (fst c)\<lparr>searching_buffer := []\<rparr>"
    by (auto simp: on_key_def searching_def seq_Value_iff update_iff external_Value_iff split: if_splits)
  from d c s1' s2 have final: "shown (fst s2) = shown ((fst s)\<lparr>selected_option :=
            clamp (selected_option (fst s)) 0 (int (length (options (fst s))) - 1)\<rparr>)"
    using idle by (simp add: shown_def length_printable_options_slash clamp_clamp searching_def)
  from final idle have buf: "searching_buffer (fst s2) = []" and opts: "options (fst s2) = options (fst s)"
    by (simp_all add: shown_def searching_def)
  from buf opts final show ?thesis
    by (simp add: searching_def printable_options_def available_options_not_searching)
qed

text \<open>
  The menu Alpha, Beta, Gamma: after the search key and backspace the buffer is empty and
  the visible list is the one from before.
\<close>

theorem slash_then_backspace_witness:
  "\<not> searching greek
   \<and> fst (iteration quiet SLASH (greek, [])) = Value None
   \<and> fst (iteration quiet BACKSPACE (snd (iteration quiet SLASH (greek, [])))) = Value None
   \<and> searching_buffer (fst (snd (iteration quiet SLASH (greek, [])))) = ''/''
   \<and> searching_buffer (fst (snd (iteration quiet BACKSPACE
         (snd (iteration quiet SLASH (greek, [])))))) = []
   \<and> available_options (fst (snd (iteration quiet BACKSPACE
         (snd (iteration quiet SLASH (greek, [])))))) = [''Alpha'', ''Beta'', ''Gamma'']"
proof -
  have idle: "\<not> searching (fst (greek, []::call list))"
    by code_simp
  have r1: "fst (iteration quiet SLASH (greek, [])) = Value None"
    by code_simp
  have r2: "fst (iteration quiet BACKSPACE (snd (iteration quiet SLASH (greek, [])))) =
      Value None"
    by code_simp
  have mid: "searching_buffer (fst (snd (iteration quiet SLASH (greek, [])))) = ''/''"
    by code_simp
  have opts: "options greek = [''Alpha'', ''Beta'', ''Gamma'']"
    by code_simp
  from r1 have slash: "iteration quiet SLASH (greek, []) =
      (Value None, snd (iteration quiet SLASH (greek, [])))"
    by (simp add: prod_eq_iff)
  from r2 have backspace: "iteration quiet BACKSPACE (snd (iteration quiet SLASH (greek, []))) =
      (Value None, snd (iteration quiet BACKSPACE (snd (iteration quiet SLASH (greek, [])))))"
    by (simp add: prod_eq_iff)
  from slash_then_backspace [OF idle slash backspace] idle r1 r2 mid opts show ?thesis
    by simp
qed

section \<open>The confirm key\<close>

lemma check_resized_total:
  assumes "\<forall>i. \<not> raises e i"
  shows "\<exists>s1. check_resized e s = (Value (), s1)"
  using assms
  by (simp add: check_resized_def terminal_resized_def statement_defs split: prod.splits)

lemma on_intro_total:
  assumes "\<forall>i. \<not> raises e i"
  shows "\<exists>tr. on_intro e s =
     (Value (if printable_options (fst s) = [] then None else Some (selected_option (fst s))),
      (fst s, tr @ [Deinit]))"
  using assms
  by (simp add: on_intro_def statement_defs)

lemma on_key_total:
  assumes "\<forall>i. \<not> raises e i"
  shows "\<exists>s1. on_key e k s = (Value (), s1)"
  using assms
  by (cases k) (simp_all add: on_key_def statement_defs Let_def)

lemma redraw_total:
  assumes "\<forall>i. \<not> raises e i"
  shows "\<exists>s1. redraw e s = (Value (), s1)"
  using assms
  by (simp add: redraw_def statement_defs)

lemma iteration_intro:
  assumes "\<forall>i. \<not> raises e i"
  shows "\<exists>s'. iteration e INTRO s =
     (Value (Some (if printable_options (fst s') = [] then None else Some (selected_option (fst s')))), s')
     \<and> shown (fst s') = shown (fst s) \<and> (\<exists>tr. snd s' = tr @ [Deinit])"
proof -
  from check_resized_total [OF assms] obtain s1 where c: "check_resized e s = (Value (), s1)"
    by blast
  from assms have r: "readch e INTRO s1 = (Value INTRO, (fst s1, snd s1 @ [Readch]))"
    by (simp add: readch_def)
  from on_intro_total [OF assms, of "(fst s1, snd s1 @ [Readch])"] obtain tr where
    i: "on_intro e (fst s1, snd s1 @ [Readch]) =
     (Value (if printable_options (fst s1) = [] then None else Some (selected_option (fst s1))),
      (fst s1, tr @ [Deinit]))" by auto
  from c r i have "iteration e INTRO s =
     (Value (Some (if printable_options (fst s1) = [] then None else Some (selected_option (fst s1)))),
      (fst s1, tr @ [Deinit]))"
    by (simp add: iteration_def seq_def ret_def)
  with check_resized_shown [OF c] show ?thesis by auto
qed

lemma iteration_total:
  assumes "\<forall>i. \<not> raises e i" "k \<noteq> INTRO"
  shows "\<exists>s'. iteration e k s = (Value None, s')"
proof -
  from check_resized_total [OF assms(1)] obtain s1 where c: "check_resized e s = (Value (), s1)"
    by blast
  from assms have r: "readch e k s1 = (Value k, (fst s1, snd s1 @ [Readch]))"
    by (simp add: readch_def)
  from on_key_total [OF assms(1)] obtain s3 where
    k: "on_key e k (fst s1, snd s1 @ [Readch]) = (Value (), s3)" by blast
  from redraw_total [OF assms(1)] obtain s4 where d: "redraw e s3 = (Value (), s4)" by blast
  from c r k d assms(2) show ?thesis
    by (simp add: iteration_def seq_def ret_def)
qed

lemma show_loop_confirm:
  assumes "\<forall>i. \<not> raises e i" "INTRO \<notin> set pre"
  shows "\<exists>s'. show_loop e (pre @ INTRO # post) s =
     (Value (if printable_options (fst s') = [] then None else Some (selected_option (fst s'))), s')
     \<and> (\<exists>tr. snd s' = tr @ [Deinit])"
  using assms(2)
proof (induction pre arbitrary: s)
  case Nil
  from iteration_intro [OF assms(1), of s] show ?case by auto
next
  case (Cons k pre)
  then have "k \<noteq> INTRO" and pre: "INTRO \<notin> set pre" by auto
  from iteration_total [OF assms(1) this(1)] obtain s1 where "iteration e k s = (Value None, s1)"
    by blast
  with Cons.IH [OF pre, of s1] show ?case by simp
qed

text \<open>
  C2. In a world where no call raises: a pass through the loop body in which the confirm
  key is read returns, from every state, the selection index of that state when the visible
  list is not empty and \<open>None\<close> when it is empty. And \<^verbatim>\<open>show\<close>, given keys of which
  the confirm key is the first of its kind, terminates and returns just that for the menu
  object as it is then: the selection index when the visible list is not empty, \<open>None\<close>
  and no index when it is empty.
\<close>

theorem confirm_returns_selection_or_none:
  assumes calm: "\<forall>i. \<not> raises e i"
    and first: "INTRO \<notin> set pre"
  shows "(\<exists>s'. iteration e INTRO s =
            (Value (Some (if printable_options (fst s) = [] then None
                          else Some (selected_option (fst s)))), s'))
       \<and> (\<exists>m' tr. show e (pre @ INTRO # post) m =
            (Value (if printable_options m' = [] then None else Some (selected_option m')),
             (m', tr)))"
proof -
  from iteration_intro [OF calm, of s] obtain s' where
    i: "iteration e INTRO s =
     (Value (Some (if printable_options (fst s') = [] then None
                   else Some (selected_option (fst s')))), s')"
    and sh: "shown (fst s') = shown (fst s)"
    by blast
  from sh printable_options_shown [OF sh] have
    "printable_options (fst s') = printable_options (fst s)"
    "selected_option (fst s') = selected_option (fst s)"
    by (simp_all add: shown_def)
  with i have one: "\<exists>s'. iteration e INTRO s =
            (Value (Some (if printable_options (fst s) = [] then None
                          else Some (selected_option (fst s)))), s')"
    by auto
  from show_loop_confirm [OF assms] obtain t where
    l: "show_loop e (pre @ INTRO # post)
         (m, [New_MultiPyKeyStrokes, Init,
              Print_lines (printable_options m) (searching_buffer m)]) =
     (Value (if printable_options (fst t) = [] then None else Some (selected_option (fst t))), t)"
    by blast
  with calm have "\<exists>m' tr. show e (pre @ INTRO # post) m =
            (Value (if printable_options m' = [] then None else Some (selected_option m')),
             (m', tr))"
    by (simp add: show_def statement_defs)
  with one show ?thesis by blast
qed

text \<open>
  The menu Alpha, Beta, Gamma: the search key, \<open>Z\<close>, confirm. No option starts with
  \<open>Z\<close>, and \<^verbatim>\<open>show\<close> returns \<open>None\<close>.
\<close>

theorem confirm_returns_selection_or_none_witness:
  "(\<forall>i. \<not> raises quiet i)
   \<and> INTRO \<notin> set [SLASH, Str ''Z'']
   \<and> (\<exists>m' tr. show quiet ([SLASH, Str ''Z''] @ INTRO # []) greek =
         (Value (if printable_options m' = [] then None else Some (selected_option m')),
          (m', tr)))
   \<and> fst (show quiet ([SLASH, Str ''Z''] @ INTRO # []) greek) = Value None"
proof -
  have calm: "\<forall>i. \<not> raises quiet i"
    by (simp add: quiet_def)
  have first: "INTRO \<notin> set [SLASH, Str ''Z'']"
    by simp
  have none: "fst (show quiet ([SLASH, Str ''Z''] @ INTRO # []) greek) = Value None"
    by code_simp
  from confirm_returns_selection_or_none [OF calm first, of "(greek, [])" "[]" greek]
    calm first none
  show ?thesis by blast
qed

section \<open>Releasing the key reader\<close>

lemma check_resized_deinits:
  "check_resized e s = (r, s') \<Longrightarrow> deinits (snd s') = deinits (snd s)"
  by (auto simp: deinits_def check_resized_def terminal_resized_def statement_defs
      split: if_splits prod.splits result.splits)

lemma on_key_deinits:
  "on_key e k s = (r, s') \<Longrightarrow> deinits (snd s') = deinits (snd s)"
  by (cases k)
     (auto simp: deinits_def on_key_def Let_def statement_defs
      split: if_splits prod.splits result.splits)

lemma redraw_deinits:
  "redraw e s = (r, s') \<Longrightarrow> deinits (snd s') = deinits (snd s)"
  by (auto simp: deinits_def redraw_def statement_defs
      split: if_splits prod.splits result.splits)

lemma on_intro_deinits:
  "on_intro e s = (Value v, s') \<Longrightarrow>
   \<exists>tr. snd s' = tr @ [Deinit] \<and> deinits tr = deinits (snd s)"
  by (auto simp: deinits_def on_intro_def statement_defs
      split: if_splits prod.splits result.splits)

lemma iteration_continue_deinits:
  assumes "iteration e k s = (Value None, s')"
  shows "deinits (snd s') = deinits (snd s)"
proof -
  from iteration_other_key [OF assms] obtain u s1 s2 s3 where
    c: "check_resized e s = (Value u, s1)" and rd: "readch e k s1 = (Value k, s2)"
    and ok: "on_key e k s2 = (Value (), s3)" and re: "redraw e s3 = (Value (), s')"
    by blast
  from rd have "deinits (snd s2) = deinits (snd s1)"
    by (auto simp: readch_def deinits_def)
  with check_resized_deinits [OF c] on_key_deinits [OF ok] redraw_deinits [OF re]
  show ?thesis by simp
qed

lemma iteration_return_deinits:
  assumes "iteration e k s = (Value (Some v), s')"
  shows "\<exists>tr. snd s' = tr @ [Deinit] \<and> deinits tr = deinits (snd s)"
proof -
  from assms obtain u s1 k' s2 where
    c: "check_resized e s = (Value u, s1)" and rd: "readch e k s1 = (Value k', s2)"
    and i: "on_intro e s2 = (Value v, s')"
    by (auto simp: iteration_def seq_Value_iff ret_iff split: if_splits)
  from rd have "deinits (snd s2) = deinits (snd s1)"
    by (auto simp: readch_def deinits_def)
  with check_resized_deinits [OF c] on_intro_deinits [OF i]
  show ?thesis by auto
qed

lemma show_loop_return_deinits:
  "show_loop e ks s = (Value v, s') \<Longrightarrow>
   \<exists>tr. snd s' = tr @ [Deinit] \<and> deinits tr = deinits (snd s)"
proof (induction ks arbitrary: s)
  case Nil
  then show ?case
    by (auto simp: seq_def readch_blocks_def split: prod.splits result.splits if_splits)
next
  case (Cons k ks)
  obtain r1 s1 where i: "iteration e k s = (r1, s1)" by (cases "iteration e k s")
  show ?case
  proof (cases r1)
    case (Value w)
    show ?thesis
    proof (cases w)
      case None
      with Value i Cons.prems have "show_loop e ks s1 = (Value v, s')" by simp
      from Cons.IH [OF this] iteration_continue_deinits [of e k s s1] i Value None
      show ?thesis by simp
    next
      case (Some x)
      with Value i Cons.prems have "s' = s1" "x = v" by simp_all
      with iteration_return_deinits [of e k s v s1] i Value Some show ?thesis by simp
    qed
  next
    case Raised
    with i Cons.prems show ?thesis by simp
  next
    case Blocked
    with i Cons.prems show ?thesis by simp
  qed
qed

lemma show_ends_with_deinit:
  assumes "show e ks m = (r, (m', tr))" "r \<noteq> Blocked"
    "\<not> raises e 0" "\<not> raises e 1" "\<not> raises e 2"
  shows "\<exists>before. tr = before @ [Deinit]"
  using assms
  by (auto simp: show_def seq_def external_def print_menu_def try_finally_def numeral_2_eq_2
      split: if_splits prod.splits result.splits)

text \<open>
  C5. The claim: on every exit path of \<^verbatim>\<open>show\<close>, an exception during the initial render
  included, \<^verbatim>\<open>deinit\<close> is called before the exception surfaces. The code calls
  \<^verbatim>\<open>kshandler.init()\<close> on line 89 and prints the first frame on line 91, before the
  \<^verbatim>\<open>try\<close> of line 93. When that first \<^verbatim>\<open>print_lines\<close> raises, \<^verbatim>\<open>show\<close> raises
  after the three calls below, and \<^verbatim>\<open>deinit\<close> is not among them. (Every exit later than
  that does end with \<^verbatim>\<open>deinit\<close>: that is the lemma above.)
\<close>

theorem first_render_raises_without_deinit:
  "fst (show first_print_fails [INTRO] greek) = Raised
   \<and> snd (snd (show first_print_fails [INTRO] greek)) =
       [New_MultiPyKeyStrokes, Init,
        Print_lines (printable_options greek) (searching_buffer greek)]
   \<and> deinits (snd (snd (show first_print_fails [INTRO] greek))) = 0"
  by code_simp

text \<open>
  C10. Whenever \<^verbatim>\<open>show\<close> returns a value, the last two calls it has made are both
  \<^verbatim>\<open>kshandler.deinit()\<close>, the one of line 112 and the one of the \<^verbatim>\<open>finally\<close> block
  of line 137, and there is no third.
\<close>

theorem confirm_calls_deinit_twice:
  assumes "show e ks m = (Value v, (m', tr))"
  shows "(\<exists>before. tr = before @ [Deinit, Deinit]) \<and> deinits tr = 2"
proof -
  let ?s0 = "(m, [New_MultiPyKeyStrokes, Init,
                  Print_lines (printable_options m) (searching_buffer m)])"
  from assms have t: "try_finally (show_loop e ks) (external e Deinit) ?s0 = (Value v, (m', tr))"
    by (auto simp: show_def seq_def external_def print_menu_def split: if_splits)
  then obtain s1 where l: "show_loop e ks ?s0 = (Value v, s1)" and tr: "tr = snd s1 @ [Deinit]"
    by (auto simp: try_finally_def external_def split: prod.splits result.splits if_splits)
  from show_loop_return_deinits [OF l] obtain before where
    "snd s1 = before @ [Deinit]" "deinits before = deinits (snd ?s0)" by blast
  with tr show ?thesis by (simp add: deinits_def)
qed

text \<open>The menu Alpha, Beta, Gamma, confirmed at once.\<close>

theorem confirm_calls_deinit_twice_witness:
  "fst (show quiet [INTRO] greek) = Value (Some 0)
   \<and> (\<exists>before. snd (snd (show quiet [INTRO] greek)) = before @ [Deinit, Deinit])
   \<and> deinits (snd (snd (show quiet [INTRO] greek))) = 2"
proof -
  have r: "fst (show quiet [INTRO] greek) = Value (Some 0)"
    by code_simp
  then have "show quiet [INTRO] greek =
      (Value (Some 0), (fst (snd (show quiet [INTRO] greek)), snd (snd (show quiet [INTRO] greek))))"
    by (simp add: prod_eq_iff)
  from confirm_calls_deinit_twice [OF this] r show ?thesis
    by blast
qed

section \<open>What show leaves alone\<close>

lemma keepsD: "keeps p f \<Longrightarrow> f s = (r, s') \<Longrightarrow> p s' = p s"
  unfolding keeps_def by blast

lemma keeps_ret: "keeps p (ret a)"
  by (simp add: keeps_def ret_def)

lemma keeps_seq:
  assumes "keeps p f" "\<And>a. keeps p (g a)"
  shows "keeps p (seq f g)"
  unfolding keeps_def
proof (intro allI impI)
  fix s r s' assume run: "seq f g s = (r, s')"
  obtain r1 s1 where f: "f s = (r1, s1)" by (cases "f s")
  from keepsD [OF assms(1) f] have 1: "p s1 = p s" .
  show "p s' = p s"
  proof (cases r1)
    case (Value a)
    with run f have "g a s1 = (r, s')" by (simp add: seq_def)
    from keepsD [OF assms(2) this] 1 show ?thesis by simp
  next
    case Raised
    with run f 1 show ?thesis by (simp add: seq_def)
  next
    case Blocked
    with run f 1 show ?thesis by (simp add: seq_def)
  qed
qed

lemma keeps_if: "keeps p f \<Longrightarrow> keeps p g \<Longrightarrow> keeps p (if b then f else g)"
  by simp

lemma keeps_config_check_resized: "keeps (\<lambda>s. config (fst s)) (check_resized e)"
  unfolding keeps_def
  by (auto simp: config_def check_resized_def terminal_resized_def statement_defs
      split: if_splits prod.splits result.splits)

lemma keeps_config_readch: "keeps (\<lambda>s. config (fst s)) (readch e k)"
  by (auto simp add: keeps_def readch_def)

lemma keeps_config_on_intro: "keeps (\<lambda>s. config (fst s)) (on_intro e)"
  unfolding keeps_def
  by (auto simp: config_def on_intro_def statement_defs
      split: if_splits prod.splits result.splits)

lemma keeps_config_redraw: "keeps (\<lambda>s. config (fst s)) (redraw e)"
  unfolding keeps_def
  by (auto simp: config_def redraw_def statement_defs
      split: if_splits prod.splits result.splits)


lemma keeps_config_on_key: "keeps (\<lambda>s. config (fst s)) (on_key e k)"
  unfolding keeps_def
  by (cases k)
     (auto simp: config_def on_key_def Let_def statement_defs
      split: if_splits prod.splits result.splits)

lemma keeps_config_iteration: "keeps (\<lambda>s. config (fst s)) (iteration e k)"
  unfolding iteration_def
  by (intro keeps_seq keeps_if keeps_ret keeps_config_check_resized keeps_config_readch
      keeps_config_on_intro keeps_config_on_key keeps_config_redraw)

lemma keeps_config_readch_blocks: "keeps (\<lambda>s. config (fst s)) (readch_blocks e)"
  by (auto simp add: keeps_def readch_blocks_def)

lemma show_loop_config:
  "show_loop e ks s = (r, s') \<Longrightarrow> config (fst s') = config (fst s)"
proof (induction ks arbitrary: s)
  case Nil
  have "keeps (\<lambda>s. config (fst s)) (seq (check_resized e) (\<lambda>_. readch_blocks e))"
    by (intro keeps_seq keeps_config_check_resized keeps_config_readch_blocks)
  from keepsD [OF this, of s r s'] Nil show ?case by simp
next
  case (Cons k ks)
  obtain r1 s1 where i: "iteration e k s = (r1, s1)" by (cases "iteration e k s")
  from keepsD [OF keeps_config_iteration i] have 1: "config (fst s1) = config (fst s)" .
  show ?case
  proof (cases "r1 = Value None")
    case True
    with Cons.prems i have "show_loop e ks s1 = (r, s')" by simp
    from Cons.IH [OF this] 1 show ?thesis by simp
  next
    case False
    with Cons.prems i have "s' = s1"
      by (auto split: result.splits option.splits)
    with 1 show ?thesis by simp
  qed
qed

lemma keeps_config_external: "keeps (\<lambda>s. config (fst s)) (external e c)"
  by (simp add: keeps_def external_def)

lemma keeps_config_print_menu: "keeps (\<lambda>s. config (fst s)) (print_menu e)"
  by (simp add: keeps_def print_menu_def external_def)

lemma try_finally_config:
  assumes "try_finally (show_loop e ks) (external e Deinit) s = (r, s')"
  shows "config (fst s') = config (fst s)"
proof -
  obtain r1 s1 where l: "show_loop e ks s = (r1, s1)" by (cases "show_loop e ks s")
  from show_loop_config [OF l] have 1: "config (fst s1) = config (fst s)" .
  from assms l have "fst s' = fst s1"
    by (auto simp: try_finally_def external_def split: result.splits if_splits)
  with 1 show ?thesis by simp
qed

lemma length_append_to [simp]: "length (append_to r x h) = length h"
  by (simp add: append_to_def)

lemma take_append_to [simp]: "n \<le> r \<Longrightarrow> take n (append_to r x h) = take n h"
  by (simp add: append_to_def)

lemma nth_append_to: "r < length h \<Longrightarrow> append_to r x h ! i = (if i = r then h ! r @ [x] else h ! i)"
  by (simp add: append_to_def)

lemma filter_into_facts:
  "a < length h \<Longrightarrow>
   length (filter_into m a opts h) = length h \<and>
   (\<forall>n \<le> a. take n (filter_into m a opts h) = take n h) \<and>
   filter_into m a opts h ! a =
     h ! a @ filter (\<lambda>opt. re_match (re_escape (drop 1 (searching_buffer m))) opt = Some True) opts \<and>
   (\<forall>i. i \<noteq> a \<longrightarrow> filter_into m a opts h ! i = h ! i)"
  by (induction opts arbitrary: h) (auto simp: nth_append_to)

lemma add_styles_append:
  "add_styles m i (xs @ ys) = add_styles m i xs @ add_styles m (i + int (length xs)) ys"
  by (induction xs arbitrary: i) (auto simp: algebra_simps)

lemma style_into_facts:
  "t < length h \<Longrightarrow>
   length (style_into m t i opts h) = length h \<and>
   (\<forall>n \<le> t. take n (style_into m t i opts h) = take n h) \<and>
   style_into m t i opts h ! t = h ! t @ add_styles m i opts"
  by (induction opts arbitrary: h i) (auto simp: nth_append_to)

lemma printable_options_objects_copy:
  assumes "self_options < length h"
  shows "fst (printable_options_objects m self_options h) = length h
       \<and> take (length h) (snd (printable_options_objects m self_options h)) = h
       \<and> snd (printable_options_objects m self_options h) !
           fst (printable_options_objects m self_options h) =
           printable_options (m\<lparr>options := h ! self_options\<rparr>)"
proof (cases "searching m")
  case True
  let ?h2 = "h @ [[], []]"
  let ?h3 = "filter_into m (Suc (length h)) (h ! self_options) ?h2"
  have a: "Suc (length h) < length ?h2" by simp
  note f = filter_into_facts [OF a, of m "h ! self_options"]
  have t: "length h < length ?h3" using f by simp
  note s = style_into_facts [OF t, of m 0 "?h3 ! Suc (length h)"]
  have eq: "printable_options_objects m self_options h =
     (length h, style_into m (length h) 0 (?h3 ! Suc (length h)) ?h3)"
    using True assms
    by (simp add: printable_options_objects_def new_list_def nth_append)
  have 1: "take (length h) (style_into m (length h) 0 (?h3 ! Suc (length h)) ?h3) = h"
    using s f by simp
  have "?h3 ! length h = []" using f by (simp add: nth_append)
  moreover have "?h3 ! Suc (length h) = filter (\<lambda>opt. re_match (re_escape (drop 1 (searching_buffer m))) opt = Some True) (h ! self_options)"
    using f by (simp add: nth_append)
  ultimately have 2: "style_into m (length h) 0 (?h3 ! Suc (length h)) ?h3 ! length h =
     printable_options (m\<lparr>options := h ! self_options\<rparr>)"
    using s True
    by (simp add: printable_options_def available_options_def searching_def add_styles_shown [of "m\<lparr>options := h ! self_options\<rparr>" m 0])
  from eq 1 2 show ?thesis by simp
next
  case False
  let ?h3 = "h @ [[], [], h ! self_options]"
  have t: "length h < length ?h3" by simp
  note s = style_into_facts [OF t, of m 0 "h ! self_options"]
  have eq: "printable_options_objects m self_options h =
     (length h, style_into m (length h) 0 (h ! self_options) ?h3)"
    using False assms
    by (simp add: printable_options_objects_def new_list_def slice_all_def nth_append)
  have 1: "take (length h) (style_into m (length h) 0 (h ! self_options) ?h3) = h"
    using s by simp
  have 2: "style_into m (length h) 0 (h ! self_options) ?h3 ! length h =
     printable_options (m\<lparr>options := h ! self_options\<rparr>)"
    using s False
    by (simp add: printable_options_def available_options_def searching_def add_styles_shown [of "m\<lparr>options := h ! self_options\<rparr>" m 0])
  from eq 1 2 show ?thesis by simp
qed

text \<open>
  C9. However a run of \<^verbatim>\<open>show\<close> ends (a value, an exception, or waiting for a key after
  any number of keys), the six configuration fields \<^verbatim>\<open>options\<close>, \<^verbatim>\<open>default_option\<close>,
  \<^verbatim>\<open>prechar\<close>, \<^verbatim>\<open>clear_on_exit\<close>, \<^verbatim>\<open>selected_color\<close> and \<^verbatim>\<open>selected_style\<close> of the
  menu object are as before; only the four other fields can differ. And
  \<^verbatim>\<open>_printable_options\<close> works on lists of its own: the list it returns is a new object,
  every list object that existed before, the option list among them, is unchanged, and the
  new object holds the visible options.
\<close>

theorem show_leaves_configuration:
  assumes run: "show e ks m = (r, (m', tr))"
    and obj: "self_options < length h"
  shows "options m' = options m \<and> default_option m' = default_option m
       \<and> prechar m' = prechar m \<and> clear_on_exit m' = clear_on_exit m
       \<and> selected_color m' = selected_color m \<and> selected_style m' = selected_style m
       \<and> fst (printable_options_objects m self_options h) = length h
       \<and> take (length h) (snd (printable_options_objects m self_options h)) = h
       \<and> snd (printable_options_objects m self_options h) !
           fst (printable_options_objects m self_options h) =
           printable_options (m\<lparr>options := h ! self_options\<rparr>)"
proof -
  have "keeps (\<lambda>s. config (fst s))
     (seq (external e New_MultiPyKeyStrokes) (\<lambda>_.
      seq (external e Init) (\<lambda>_.
      seq (print_menu e) (\<lambda>_.
      try_finally (show_loop e ks) (external e Deinit)))))"
    by (intro keeps_seq keeps_config_external keeps_config_print_menu)
       (auto simp: keeps_def dest: try_finally_config)
  from keepsD [OF this, of "(m, [])" r "(m', tr)"] run
  have "config m' = config m" by (simp add: show_def)
  then have "options m' = options m \<and> default_option m' = default_option m
       \<and> prechar m' = prechar m \<and> clear_on_exit m' = clear_on_exit m
       \<and> selected_color m' = selected_color m \<and> selected_style m' = selected_style m"
    by (simp add: config_def)
  with printable_options_objects_copy [OF obj, of m] show ?thesis
    by blast
qed

text \<open>
  The menu Alpha, Beta, Gamma with the keys search, \<open>B\<close>, confirm: the buffer has
  changed, the configuration has not; and on a store whose only object is the option list,
  \<^verbatim>\<open>_printable_options\<close> returns object 1 and leaves object 0 as it was.
\<close>

theorem show_leaves_configuration_witness:
  "(0::nat) < length [[''Alpha'', ''Beta'', ''Gamma'']]
   \<and> searching_buffer (fst (snd (show quiet [SLASH, Str ''B'', INTRO] greek))) = ''/B''
   \<and> options (fst (snd (show quiet [SLASH, Str ''B'', INTRO] greek))) = options greek
   \<and> default_option (fst (snd (show quiet [SLASH, Str ''B'', INTRO] greek))) =
       default_option greek
   \<and> fst (printable_options_objects greek 0 [[''Alpha'', ''Beta'', ''Gamma'']]) = 1
   \<and> take 1 (snd (printable_options_objects greek 0 [[''Alpha'', ''Beta'', ''Gamma'']])) =
       [[''Alpha'', ''Beta'', ''Gamma'']]"
proof -
  have obj: "(0::nat) < length [[''Alpha'', ''Beta'', ''Gamma'']]"
    by simp
  have buf: "searching_buffer (fst (snd (show quiet [SLASH, Str ''B'', INTRO] greek))) = ''/B''"
    by code_simp
  have run: "show quiet [SLASH, Str ''B'', INTRO] greek =
      (fst (show quiet [SLASH, Str ''B'', INTRO] greek),
       (fst (snd (show quiet [SLASH, Str ''B'', INTRO] greek)),
        snd (snd (show quiet [SLASH, Str ''B'', INTRO] greek))))"
    by simp
  from show_leaves_configuration [OF run obj] obj buf show ?thesis
    by simp
qed

section \<open>A resized terminal\<close>

lemma printable_options_line_size [simp]:
  "printable_options (m\<lparr>terminal_last_line_size := a\<rparr>) = printable_options m"
  by (rule printable_options_shown) (simp add: shown_def)

lemma printable_options_column_size [simp]:
  "printable_options (m\<lparr>terminal_last_column_size := a\<rparr>) = printable_options m"
  by (rule printable_options_shown) (simp add: shown_def)

lemma check_resized_when_differs:
  assumes calm: "\<forall>i. \<not> raises e i"
    and stable: "\<forall>i \<ge> length (snd s). terminal_size e i = g"
    and differs: "g \<noteq> (terminal_last_line_size (fst s), terminal_last_column_size (fst s))"
  shows "\<exists>probes. check_resized e s =
      (Value (),
       ((fst s)\<lparr>terminal_last_line_size := fst g, terminal_last_column_size := snd g\<rparr>,
        snd s @ probes @
          [Clear_terminal, Print_lines (printable_options (fst s)) (searching_buffer (fst s))]))
     \<and> set probes = {Get_terminal_size}"
proof (cases "fst g \<noteq> terminal_last_line_size (fst s)")
  case True
  with calm stable have "check_resized e s =
      (Value (),
       ((fst s)\<lparr>terminal_last_line_size := fst g, terminal_last_column_size := snd g\<rparr>,
        snd s @ [Get_terminal_size, Get_terminal_size, Get_terminal_size] @
          [Clear_terminal, Print_lines (printable_options (fst s)) (searching_buffer (fst s))]))"
    by (simp add: check_resized_def terminal_resized_def statement_defs)
  then show ?thesis by (intro exI [of _ "[Get_terminal_size, Get_terminal_size, Get_terminal_size]"]) simp
next
  case False
  with differs have "snd g \<noteq> terminal_last_column_size (fst s)"
    by (cases g) auto
  with False calm stable have "check_resized e s =
      (Value (),
       ((fst s)\<lparr>terminal_last_line_size := fst g, terminal_last_column_size := snd g\<rparr>,
        snd s @ [Get_terminal_size, Get_terminal_size, Get_terminal_size, Get_terminal_size] @
          [Clear_terminal, Print_lines (printable_options (fst s)) (searching_buffer (fst s))]))"
    by (simp add: check_resized_def terminal_resized_def statement_defs)
  then show ?thesis by (intro exI [of _ "[Get_terminal_size, Get_terminal_size, Get_terminal_size, Get_terminal_size]"]) simp
qed


lemma on_intro_erases:
  assumes calm: "\<forall>i. \<not> raises e i"
    and stable: "\<forall>i \<ge> length (snd s). terminal_size e i = g"
    and line: "terminal_last_line_size (fst s) = fst g"
    and run: "on_intro e s = (r, s')"
  shows "\<exists>rest. snd s' = snd s @ rest \<and> list_all (erases_with g (fst s)) rest \<and> fst s' = fst s"
  using assms
  by (auto simp: on_intro_def statement_defs erases_with_def split: if_splits)

lemma on_key_erases:
  assumes calm: "\<forall>i. \<not> raises e i"
    and run: "on_key e k s = (r, s')"
  shows "\<exists>rest. snd s' = snd s @ rest \<and> list_all (erases_with g m) rest
      \<and> terminal_last_line_size (fst s') = terminal_last_line_size (fst s)
      \<and> terminal_last_column_size (fst s') = terminal_last_column_size (fst s)
      \<and> options (fst s') = options (fst s)"
  using assms
  by (cases k) (auto simp: on_key_def Let_def statement_defs erases_with_def split: if_splits)

lemma redraw_erases:
  assumes calm: "\<forall>i. \<not> raises e i"
    and line: "terminal_last_line_size (fst s) = fst g"
    and run: "redraw e s = (r, s')"
  shows "\<exists>rest. snd s' = snd s @ rest \<and> list_all (erases_with g m) rest
      \<and> terminal_last_line_size (fst s') = terminal_last_line_size (fst s)
      \<and> terminal_last_column_size (fst s') = terminal_last_column_size (fst s)"
  using assms
  by (auto simp: redraw_def statement_defs erases_with_def split: if_splits)


text \<open>
  C8. Let no call raise, and let the terminal have the size \<open>g\<close> from the top of a pass
  through the loop body on, a size that differs from the one the menu object remembers.
  Then the pass asks for the size, clears the terminal and prints the whole menu, and only
  then reads the key; when the pass is over the menu object remembers \<open>g\<close>; and every call
  after the reading of the key that erases lines does so with a count computed from \<open>g\<close>.
\<close>

theorem resize_redraws_before_key_and_erases_with_new_size:
  assumes calm: "\<forall>i. \<not> raises e i"
    and stable: "\<forall>i \<ge> length (snd s). terminal_size e i = g"
    and differs: "g \<noteq> (terminal_last_line_size (fst s), terminal_last_column_size (fst s))"
    and run: "iteration e k s = (r, s')"
  shows "terminal_last_line_size (fst s') = fst g
       \<and> terminal_last_column_size (fst s') = snd g
       \<and> (\<exists>probes rest.
             snd s' = snd s @ probes @
               [Clear_terminal,
                Print_lines (printable_options (fst s)) (searching_buffer (fst s)),
                Readch] @ rest
             \<and> set probes = {Get_terminal_size}
             \<and> list_all (erases_with g (fst s)) rest)"
proof -
  let ?m1 = "(fst s)\<lparr>terminal_last_line_size := fst g, terminal_last_column_size := snd g\<rparr>"
  from check_resized_when_differs [OF calm stable differs] obtain probes where
    c: "check_resized e s = (Value (), (?m1, snd s @ probes @
          [Clear_terminal, Print_lines (printable_options (fst s)) (searching_buffer (fst s))]))"
    and p: "set probes = {Get_terminal_size}"
    by blast
  let ?tr2 = "snd s @ probes @
          [Clear_terminal, Print_lines (printable_options (fst s)) (searching_buffer (fst s)),
           Readch]"
  let ?s2 = "(?m1, ?tr2)"
  have ew: "erases_with g ?m1 = erases_with g (fst s)"
    by (auto simp: erases_with_def fun_eq_iff split: call.splits)
  have stable2: "\<forall>i \<ge> length (snd ?s2). terminal_size e i = g"
    using stable by simp
  show ?thesis
  proof (cases "k = INTRO")
    case True
    with c calm run have "seq (on_intro e) (\<lambda>v. ret (Some v)) ?s2 = (r, s')"
      by (simp add: iteration_def seq_def readch_def)
    moreover from on_intro_total [OF calm, of ?s2] obtain v t where
      i: "on_intro e ?s2 = (Value v, t)" by blast
    ultimately have s': "s' = t" by (simp add: seq_def ret_def)
    from on_intro_erases [OF calm stable2 _ i] obtain rest where
      "snd t = ?tr2 @ rest" "list_all (erases_with g ?m1) rest" "fst t = ?m1"
      by auto
    with s' p ew show ?thesis by auto
  next
    case False
    with c calm run have rest: "seq (on_key e k) (\<lambda>_. seq (redraw e) (\<lambda>_. ret None)) ?s2 = (r, s')"
      by (simp add: iteration_def seq_def readch_def)
    from on_key_total [OF calm, of k ?s2] obtain s3 where
      ok: "on_key e k ?s2 = (Value (), s3)" by blast
    from redraw_total [OF calm, of s3] obtain s4 where
      rd: "redraw e s3 = (Value (), s4)" by blast
    from rest ok rd have s': "s' = s4" by (simp add: seq_def ret_def)
    from on_key_erases [OF calm ok, of g "fst s"] obtain rest1 where
      1: "snd s3 = ?tr2 @ rest1" "list_all (erases_with g (fst s)) rest1"
      "terminal_last_line_size (fst s3) = fst g" "terminal_last_column_size (fst s3) = snd g"
      by auto
    from redraw_erases [OF calm 1(3) rd, of "fst s"] obtain rest2 where
      2: "snd s4 = snd s3 @ rest2" "list_all (erases_with g (fst s)) rest2"
      "terminal_last_line_size (fst s4) = fst g" "terminal_last_column_size (fst s4) = snd g"
      using 1 by auto
    from 1 2 have "snd s4 = snd s @ probes @
               [Clear_terminal,
                Print_lines (printable_options (fst s)) (searching_buffer (fst s)),
                Readch] @ (rest1 @ rest2)" "list_all (erases_with g (fst s)) (rest1 @ rest2)"
      by simp_all
    with s' p 2 show ?thesis by blast
  qed
qed

text \<open>
  The menu Alpha, Beta, Gamma remembers 24 lines and 80 columns; the terminal has 30 and
  100; the user presses arrow-down.
\<close>

theorem resize_redraws_before_key_and_erases_with_new_size_witness:
  "(\<forall>i. \<not> raises resized i)
   \<and> (\<forall>i. terminal_size resized i = (30, 100))
   \<and> (30, 100) \<noteq> (terminal_last_line_size greek, terminal_last_column_size greek)
   \<and> terminal_last_line_size (fst (snd (iteration resized ARROW_DOWN (greek, [])))) = 30
   \<and> terminal_last_column_size (fst (snd (iteration resized ARROW_DOWN (greek, [])))) = 100
   \<and> (\<exists>probes rest.
         snd (snd (iteration resized ARROW_DOWN (greek, []))) = [] @ probes @
           [Clear_terminal, Print_lines (printable_options greek) (searching_buffer greek),
            Readch] @ rest
         \<and> set probes = {Get_terminal_size}
         \<and> list_all (erases_with (30, 100) greek) rest)"
proof -
  have calm: "\<forall>i. \<not> raises resized i"
    by (simp add: resized_def)
  have stable: "\<forall>i \<ge> length (snd (greek, []::call list)). terminal_size resized i = (30, 100)"
    by (simp add: resized_def)
  have differs: "(30, 100) \<noteq>
      (terminal_last_line_size (fst (greek, []::call list)),
       terminal_last_column_size (fst (greek, []::call list)))"
    by (simp add: greek_def MultiPySimpleMenu_init_def)
  have run: "iteration resized ARROW_DOWN (greek, []) =
      (fst (iteration resized ARROW_DOWN (greek, [])),
       snd (iteration resized ARROW_DOWN (greek, [])))"
    by simp
  have always: "\<forall>i. terminal_size resized i = (30, 100)"
    by (simp add: resized_def)
  from resize_redraws_before_key_and_erases_with_new_size [OF calm stable differs run]
    calm always differs
  show ?thesis by simp
qed

end
